theory Spec2Isabelle
  imports Complex_Main
begin

section \<open>The order/payment ledger of PoolPal\<close>

text \<open>
  A shallow embedding of the payment service (\<^verbatim>\<open>src/lib/user-types.ts\<close>, second
  document: \<^verbatim>\<open>payment-service\<close>), the order service (\<^verbatim>\<open>unnamed/part_009\<close>:
  \<^verbatim>\<open>order-service\<close>), the payment detail page
  (\<^verbatim>\<open>app/dashboard/payments/[id]/client.tsx\<close>) and the order creation page
  (\<^verbatim>\<open>app/dashboard/orders/new/page.tsx\<close>).

  Conventions of the model:
  \<^item> A Firestore collection is an association list from document id to document. A
    document's identity is its key: every reader of the source overwrites the \<^verbatim>\<open>id\<close>
    field of a payment with \<^verbatim>\<open>doc.id\<close>, and \<^verbatim>\<open>saveOrder\<close> stores an order under
    the id it writes into the document.
  \<^item> A JavaScript \<^verbatim>\<open>number\<close> that holds money or a quantity is a \<^typ>\<open>real\<close>
    (rounding and \<^verbatim>\<open>NaN\<close> are outside the model); a timestamp is a \<^typ>\<open>nat\<close>.
  \<^item> An optional field is an \<^typ>\<open>'a option\<close>.
  \<^item> The two status enums share member names, and the two interfaces share field
    names; the constructors are written \<open>P_\<close>\<dots> for \<^verbatim>\<open>PaymentStatus\<close> and \<open>O_\<close>\<dots> for
    \<^verbatim>\<open>OrderStatus\<close>, and a shared field name carries the prefix \<open>p_\<close> or \<open>o_\<close>.
  \<^item> The readings of \<^verbatim>\<open>Date.now()\<close> and \<^verbatim>\<open>Math.random()\<close> that a call writes
    to the store are parameters of the call, one field of a record for each reading.
  \<^item> Persistence calls succeed: the \<^verbatim>\<open>catch\<close> branches that report a failing
    Firestore call are not part of the model. Toasts and console output are not
    modelled, except that the message of a failing call is the error value returned.
\<close>

subsection \<open>Firestore collections\<close>

type_synonym 'a collection = "(string \<times> 'a) list"

definition getDoc :: "'a collection \<Rightarrow> string \<Rightarrow> 'a option" where
  "getDoc c k = map_of c k"

text \<open>
  \<^verbatim>\<open>updateDoc\<close> changes the fields of the document stored under the key. Every call
  in the source is made on a document that the caller has just read.
\<close>

definition updateDoc :: "string \<Rightarrow> ('a \<Rightarrow> 'a) \<Rightarrow> 'a collection \<Rightarrow> 'a collection" where
  "updateDoc k f c = map (\<lambda>(k', v). if k' = k then (k', f v) else (k', v)) c"

text \<open>\<^verbatim>\<open>setDoc\<close> without merge replaces the document, or creates it.\<close>

fun setDoc :: "string \<Rightarrow> 'a \<Rightarrow> 'a collection \<Rightarrow> 'a collection" where
  "setDoc k v [] = [(k, v)]"
| "setDoc k v ((k', v') # c) = (if k' = k then (k, v) # c else (k', v') # setDoc k v c)"

subsection \<open>Payments\<close>

datatype PaymentStatus =
  P_PENDING | P_PROCESSING | P_COMPLETED | P_FAILED | P_REFUNDED | P_CANCELLED

text \<open>
  The interface \<^verbatim>\<open>Payment\<close>. Its \<^verbatim>\<open>id\<close> is the document key; its free-form
  \<^verbatim>\<open>metadata\<close>, which no function below reads or writes, is left out.
\<close>

record Payment =
  orderId :: string
  p_userId :: string
  amount :: real
  referenceCode :: string
  p_receiptNumber :: "string option"
  p_paymentMethod :: string
  p_status :: PaymentStatus
  p_createdAt :: nat
  p_updatedAt :: "nat option"
  completedAt :: "nat option"
  p_notes :: "string option"

subsection \<open>Orders\<close>

record OrderItem =
  item_id :: string
  imageUrl :: string
  name :: string
  price :: real
  quantity :: real
  category :: "string option"

text \<open>
  The enum \<^verbatim>\<open>OrderStatus\<close> of the order service has seven members; it has no
  member \<^verbatim>\<open>RETURNED\<close>.
\<close>

datatype OrderStatus =
  O_PENDING | O_PROCESSING | O_COMPLETED | O_CANCELLED | O_REFUNDED | O_SHIPPED | O_DELIVERED

record Order =
  o_id :: string
  o_createdAt :: nat
  items :: "OrderItem list"
  o_notes :: "string option"
  orderNumber :: string
  o_paymentMethod :: string
  receiptNumber :: string
  shippingAddress :: string
  o_status :: OrderStatus
  total :: real
  o_userId :: string
  isPaid :: bool
  paymentId :: "string option"
  paymentReferenceCode :: "string option"
  o_updatedAt :: "nat option"

record Store =
  orders :: "Order collection"
  payments :: "Payment collection"

subsection \<open>Payment service\<close>

text \<open>The table \<^verbatim>\<open>validTransitions\<close> of \<^verbatim>\<open>isValidStatusTransition\<close>.\<close>

fun paymentValidTransitions :: "PaymentStatus \<Rightarrow> PaymentStatus list" where
  "paymentValidTransitions P_PENDING = [P_PROCESSING, P_COMPLETED, P_FAILED, P_CANCELLED]"
| "paymentValidTransitions P_PROCESSING = [P_COMPLETED, P_FAILED]"
| "paymentValidTransitions P_COMPLETED = [P_REFUNDED]"
| "paymentValidTransitions P_FAILED = [P_PENDING, P_CANCELLED]"
| "paymentValidTransitions P_REFUNDED = []"
| "paymentValidTransitions P_CANCELLED = [P_PENDING]"

definition isValidStatusTransition :: "PaymentStatus \<Rightarrow> PaymentStatus \<Rightarrow> bool" where
  "isValidStatusTransition currentStatus newStatus \<longleftrightarrow>
     newStatus \<in> set (paymentValidTransitions currentStatus)"

text \<open>\<^verbatim>\<open>getPaymentById\<close>: \<^verbatim>\<open>null\<close> for an empty id or a missing document.\<close>

definition getPaymentById :: "string \<Rightarrow> Store \<Rightarrow> Payment option" where
  "getPaymentById pid s = (if pid = [] then None else getDoc (payments s) pid)"

text \<open>
  \<^verbatim>\<open>getPaymentsByOrderId\<close>: the payments whose \<^verbatim>\<open>orderId\<close> is the given one, each
  with its document id. The source orders the result by \<^verbatim>\<open>createdAt\<close>; the order of
  the result is not modelled (its consumer below only asks whether some element
  satisfies a predicate).
\<close>

definition getPaymentsByOrderId :: "string \<Rightarrow> Store \<Rightarrow> (string \<times> Payment) list" where
  "getPaymentsByOrderId oid s =
     (if oid = [] then [] else filter (\<lambda>(pid, p). orderId p = oid) (payments s))"

text \<open>
  \<^verbatim>\<open>updateOrderPaymentStatus\<close>: returns \<^verbatim>\<open>false\<close> for an empty id or a missing
  order; otherwise writes \<^verbatim>\<open>isPaid\<close>, the status \<^verbatim>\<open>'processing'\<close> or \<^verbatim>\<open>'pending'\<close>
  and \<^verbatim>\<open>updatedAt\<close>.
\<close>

definition updateOrderPaymentStatus :: "string \<Rightarrow> bool \<Rightarrow> nat \<Rightarrow> Store \<Rightarrow> bool \<times> Store" where
  "updateOrderPaymentStatus oid paid now s =
     (if oid = [] then (False, s)
      else case getDoc (orders s) oid of
        None \<Rightarrow> (False, s)
      | Some _ \<Rightarrow>
          (True, s\<lparr>orders := updateDoc oid
             (\<lambda>ord. ord\<lparr>isPaid := paid,
                     o_status := (if paid then O_PROCESSING else O_PENDING),
                     o_updatedAt := Some now\<rparr>) (orders s)\<rparr>))"

text \<open>
  The failures of \<^verbatim>\<open>updatePaymentStatus\<close>: the function returns \<^verbatim>\<open>false\<close> after a
  toast with the message \<^verbatim>\<open>Invalid payment ID\<close>, \<^verbatim>\<open>Payment not found\<close> or
  \<^verbatim>\<open>Invalid status transition from ... to ...\<close>. \<open>Inr ()\<close> is the result \<^verbatim>\<open>true\<close>.
\<close>

datatype PaymentError =
  InvalidPaymentId
| PaymentNotFound
| InvalidStatusTransition PaymentStatus PaymentStatus

text \<open>
  The three readings of \<^verbatim>\<open>Date.now()\<close> that \<^verbatim>\<open>updatePaymentStatus\<close> writes: into
  the payment's \<^verbatim>\<open>updatedAt\<close>, into its \<^verbatim>\<open>completedAt\<close>, and (inside
  \<^verbatim>\<open>updateOrderPaymentStatus\<close>) into the order's \<^verbatim>\<open>updatedAt\<close>.
\<close>

record Clock =
  now_updatedAt :: nat
  now_completedAt :: nat
  now_order :: nat

text \<open>The fields \<^verbatim>\<open>updateData\<close> written to the payment document.\<close>

definition paymentUpdateData :: "PaymentStatus \<Rightarrow> Clock \<Rightarrow> Payment \<Rightarrow> Payment" where
  "paymentUpdateData st clk p =
     (if st = P_COMPLETED
      then p\<lparr>p_status := st, p_updatedAt := Some (now_updatedAt clk),
             completedAt := Some (now_completedAt clk)\<rparr>
      else p\<lparr>p_status := st, p_updatedAt := Some (now_updatedAt clk)\<rparr>)"

definition updatePaymentStatus ::
  "string \<Rightarrow> PaymentStatus \<Rightarrow> Clock \<Rightarrow> Store \<Rightarrow> (PaymentError + unit) \<times> Store" where
  "updatePaymentStatus pid st clk s =
     (if pid = [] then (Inl InvalidPaymentId, s)
      else case getPaymentById pid s of
        None \<Rightarrow> (Inl PaymentNotFound, s)
      | Some payment \<Rightarrow>
          if \<not> isValidStatusTransition (p_status payment) st
          then (Inl (InvalidStatusTransition (p_status payment) st), s)
          else
            let s1 = s\<lparr>payments := updateDoc pid (paymentUpdateData st clk) (payments s)\<rparr>
            in if st = P_COMPLETED
               then (Inr (), snd (updateOrderPaymentStatus (orderId payment) True (now_order clk) s1))
               else if st = P_FAILED \<or> st = P_CANCELLED
               then
                 let orderPayments = getPaymentsByOrderId (orderId payment) s1;
                     hasCompletedPayment =
                       list_ex (\<lambda>(i, p). i \<noteq> pid \<and> p_status p = P_COMPLETED) orderPayments
                 in if \<not> hasCompletedPayment
                    then (Inr (), snd (updateOrderPaymentStatus (orderId payment) False (now_order clk) s1))
                    else (Inr (), s1)
               else (Inr (), s1))"

text \<open>
  \<^verbatim>\<open>getTotalRevenue\<close>: the query selects the payments whose status is
  \<^verbatim>\<open>COMPLETED\<close>; the reduction adds \<^verbatim>\<open>payment.amount || 0\<close> from the left,
  starting at 0.
\<close>

definition getTotalRevenue :: "Store \<Rightarrow> real" where
  "getTotalRevenue s =
     (let docs = filter (\<lambda>(pid, p). p_status p = P_COMPLETED) (payments s)
      in if docs = [] then 0
         else foldl (\<lambda>total (pid, payment).
                total + (if amount payment = 0 then 0 else amount payment)) 0 docs)"

subsection \<open>Payment detail page\<close>

text \<open>\<^verbatim>\<open>getValidStatusTransitions\<close> of the payment detail client.\<close>

fun getValidStatusTransitions :: "PaymentStatus \<Rightarrow> PaymentStatus list" where
  "getValidStatusTransitions P_PENDING = [P_PROCESSING, P_COMPLETED, P_FAILED, P_CANCELLED]"
| "getValidStatusTransitions P_PROCESSING = [P_COMPLETED, P_FAILED]"
| "getValidStatusTransitions P_COMPLETED = [P_REFUNDED]"
| "getValidStatusTransitions P_FAILED = [P_PENDING, P_PROCESSING]"
| "getValidStatusTransitions P_CANCELLED = [P_PENDING]"
| "getValidStatusTransitions P_REFUNDED = []"

subsection \<open>Order service\<close>

text \<open>
  The table \<^verbatim>\<open>validTransitions\<close> of \<^verbatim>\<open>isValidOrderStatusTransition\<close>. Two rows
  name \<^verbatim>\<open>OrderStatus.RETURNED\<close>; the enum has no such member, so the expression is
  \<^verbatim>\<open>undefined\<close>, written \<open>None\<close> here, and no status is equal to it.
\<close>

fun orderValidTransitions :: "OrderStatus \<Rightarrow> OrderStatus option list" where
  "orderValidTransitions O_PENDING = [Some O_PROCESSING, Some O_CANCELLED]"
| "orderValidTransitions O_PROCESSING = [Some O_SHIPPED, Some O_COMPLETED, Some O_CANCELLED]"
| "orderValidTransitions O_SHIPPED = [Some O_DELIVERED, None]"
| "orderValidTransitions O_DELIVERED = [Some O_COMPLETED, None]"
| "orderValidTransitions O_COMPLETED = [Some O_REFUNDED]"
| "orderValidTransitions O_CANCELLED = []"
| "orderValidTransitions O_REFUNDED = []"

definition isValidOrderStatusTransition :: "OrderStatus \<Rightarrow> OrderStatus \<Rightarrow> bool" where
  "isValidOrderStatusTransition currentStatus newStatus \<longleftrightarrow>
     Some newStatus \<in> set (orderValidTransitions currentStatus)"

text \<open>\<^verbatim>\<open>getOrderById\<close>: the stored order, or \<^verbatim>\<open>null\<close> when there is none.\<close>

definition getOrderById :: "string \<Rightarrow> Store \<Rightarrow> Order option" where
  "getOrderById oid s = getDoc (orders s) oid"

text \<open>
  The errors thrown by \<^verbatim>\<open>updateOrderStatus\<close>, each a \<^verbatim>\<open>new Error\<close> with its own
  message: \<^verbatim>\<open>Order not found\<close>, \<^verbatim>\<open>Invalid status transition from ... to ...\<close> and
  \<^verbatim>\<open>Cannot set order to ... when payment is not completed\<close>.
\<close>

datatype OrderError =
  OrderNotFound
| InvalidOrderStatusTransition OrderStatus OrderStatus
| PaymentNotCompleted OrderStatus

definition updateOrderStatus ::
  "string \<Rightarrow> OrderStatus \<Rightarrow> nat \<Rightarrow> Store \<Rightarrow> (OrderError + unit) \<times> Store" where
  "updateOrderStatus oid st now s =
     (case getOrderById oid s of
        None \<Rightarrow> (Inl OrderNotFound, s)
      | Some ord \<Rightarrow>
          if \<not> isValidOrderStatusTransition (o_status ord) st
          then (Inl (InvalidOrderStatusTransition (o_status ord) st), s)
          else if (st = O_PROCESSING \<or> st = O_SHIPPED \<or> st = O_DELIVERED \<or> st = O_COMPLETED)
                  \<and> \<not> isPaid ord
          then (Inl (PaymentNotCompleted st), s)
          else (Inr (), s\<lparr>orders := updateDoc oid
                  (\<lambda>d. d\<lparr>o_status := st, o_updatedAt := Some now\<rparr>) (orders s)\<rparr>))"

definition calculateOrderTotal :: "OrderItem list \<Rightarrow> real" where
  "calculateOrderTotal its = foldl (\<lambda>total item. total + price item * quantity item) 0 its"

text \<open>Decimal notation of a number, as \<^verbatim>\<open>toString\<close> and string interpolation give it.\<close>

fun decimal :: "nat \<Rightarrow> string" where
  "decimal n =
     (if n < 10 then [''0123456789'' ! n]
      else decimal (n div 10) @ [''0123456789'' ! (n mod 10)])"

declare decimal.simps [simp del]

definition generateOrderNumber :: "nat \<Rightarrow> nat \<Rightarrow> string" where
  "generateOrderNumber timestamp random = ''ORD-'' @ decimal timestamp @ ''-'' @ decimal random"

text \<open>
  \<^verbatim>\<open>saveOrder\<close>: an empty id is replaced by \<^verbatim>\<open>order_<now>\<close>, a zero \<^verbatim>\<open>createdAt\<close>
  by the timestamp; the document is written with \<^verbatim>\<open>setDoc\<close>.
\<close>

definition saveOrder :: "Order \<Rightarrow> nat \<Rightarrow> nat \<Rightarrow> Store \<Rightarrow> string \<times> Store" where
  "saveOrder orderData now_id timestamp s =
     (let orderId' = (if o_id orderData = [] then ''order_'' @ decimal now_id else o_id orderData);
          updatedOrder = orderData\<lparr>
            o_id := orderId',
            o_createdAt := (if o_createdAt orderData = 0 then timestamp else o_createdAt orderData),
            o_updatedAt := Some timestamp\<rparr>
      in (orderId', s\<lparr>orders := setDoc orderId' updatedOrder (orders s)\<rparr>))"

subsection \<open>Order creation page\<close>

record OrderFormData =
  f_items :: "OrderItem list"
  f_notes :: "string option"
  f_paymentMethod :: string
  f_shippingAddress :: string

text \<open>
  What \<^verbatim>\<open>handleSubmit\<close> reads from the environment, in the order of the reads: the
  timestamp and the random number of \<^verbatim>\<open>generateOrderNumber\<close>, the readings of
  \<^verbatim>\<open>Date.now()\<close> for \<^verbatim>\<open>createdAt\<close>, the receipt number and the user id, and the two
  readings of \<^verbatim>\<open>saveOrder\<close>.
\<close>

record SubmitEnv =
  env_orderNumberTime :: nat
  env_random :: nat
  env_createdAt :: nat
  env_receiptTime :: nat
  env_userTime :: nat
  env_idTime :: nat
  env_saveTime :: nat

datatype SubmitOutcome = AlertNoProduct | AlertNoShippingAddress | Saved string

definition slice_last6 :: "string \<Rightarrow> string" where
  "slice_last6 str = drop (length str - 6) str"

definition handleSubmit ::
  "OrderItem list \<Rightarrow> OrderFormData \<Rightarrow> SubmitEnv \<Rightarrow> Store \<Rightarrow> SubmitOutcome \<times> Store" where
  "handleSubmit selectedProducts formData env s =
     (if length selectedProducts = 0 then (AlertNoProduct, s)
      else if f_shippingAddress formData = [] then (AlertNoShippingAddress, s)
      else
        let total' = calculateOrderTotal selectedProducts;
            orderNumber' = generateOrderNumber (env_orderNumberTime env) (env_random env);
            orderData = \<lparr>
              o_id = [],
              o_createdAt = env_createdAt env,
              items = selectedProducts,
              o_notes = f_notes formData,
              orderNumber = orderNumber',
              o_paymentMethod = f_paymentMethod formData,
              receiptNumber = ''RCPT-'' @ slice_last6 (decimal (env_receiptTime env)),
              shippingAddress = f_shippingAddress formData,
              o_status = O_PENDING,
              total = total',
              o_userId = ''user_'' @ decimal (env_userTime env),
              isPaid = False,
              paymentId = None,
              paymentReferenceCode = None,
              o_updatedAt = None\<rparr>;
            (oid, s') = saveOrder orderData (env_idTime env) (env_saveTime env) s
        in (Saved oid, s'))"

subsection \<open>Saving a payment\<close>

text \<open>
  \<^verbatim>\<open>savePayment\<close> of the payment service, the writer behind the payment creation
  page. The id is given apart from the document, as everywhere in this model; an empty
  id is replaced by \<^verbatim>\<open>payment_<now>\<close>. \<^verbatim>\<open>completedAt\<close> is stamped when the status is
  \<^verbatim>\<open>COMPLETED\<close> and the field is not set yet (absent or zero). The test
  \<^verbatim>\<open>!paymentData\<close> of the source cannot fail for a payment record.
\<close>

definition savePayment :: "string \<Rightarrow> Payment \<Rightarrow> nat \<Rightarrow> nat \<Rightarrow> Store \<Rightarrow> string \<times> Store" where
  "savePayment pid paymentData now_id timestamp s =
     (let paymentId' = (if pid = [] then ''payment_'' @ decimal now_id else pid);
          updatedPayment = paymentData\<lparr>
            p_createdAt := (if p_createdAt paymentData = 0 then timestamp
                            else p_createdAt paymentData),
            p_updatedAt := Some timestamp,
            completedAt := (if p_status paymentData = P_COMPLETED
                               \<and> (completedAt paymentData = None \<or> completedAt paymentData = Some 0)
                            then Some timestamp else completedAt paymentData)\<rparr>
      in (paymentId', s\<lparr>payments := setDoc paymentId' updatedPayment (payments s)\<rparr>))"

section \<open>The transition tables in the words of the specification\<close>

text \<open>
  The payment states of the specification: \<open>PENDING \<rightarrow> {PROCESSING, COMPLETED, FAILED,
  CANCELLED}\<close>; \<open>PROCESSING \<rightarrow> {COMPLETED, FAILED}\<close>; \<open>COMPLETED \<rightarrow> {REFUNDED}\<close>;
  \<open>FAILED \<rightarrow> {PENDING, CANCELLED}\<close>; \<open>CANCELLED \<rightarrow> {PENDING}\<close>; \<open>REFUNDED \<rightarrow> {}\<close>.
\<close>

fun spec_payment_table :: "PaymentStatus \<Rightarrow> PaymentStatus set" where
  "spec_payment_table P_PENDING = {P_PROCESSING, P_COMPLETED, P_FAILED, P_CANCELLED}"
| "spec_payment_table P_PROCESSING = {P_COMPLETED, P_FAILED}"
| "spec_payment_table P_COMPLETED = {P_REFUNDED}"
| "spec_payment_table P_FAILED = {P_PENDING, P_CANCELLED}"
| "spec_payment_table P_CANCELLED = {P_PENDING}"
| "spec_payment_table P_REFUNDED = {}"

text \<open>
  The order states of the specification. Its table names eight statuses; \<open>RETURNED\<close>
  has no row of its own. \<open>spec_status\<close> reads a status of the code as the status of
  the specification with the same name.
\<close>

datatype SpecOrderStatus =
  S_PENDING | S_PROCESSING | S_SHIPPED | S_DELIVERED | S_COMPLETED | S_CANCELLED | S_REFUNDED
| S_RETURNED

fun spec_order_table :: "SpecOrderStatus \<Rightarrow> SpecOrderStatus set" where
  "spec_order_table S_PENDING = {S_PROCESSING, S_CANCELLED}"
| "spec_order_table S_PROCESSING = {S_SHIPPED, S_COMPLETED, S_CANCELLED}"
| "spec_order_table S_SHIPPED = {S_DELIVERED, S_RETURNED}"
| "spec_order_table S_DELIVERED = {S_COMPLETED, S_RETURNED}"
| "spec_order_table S_COMPLETED = {S_REFUNDED}"
| "spec_order_table S_CANCELLED = {}"
| "spec_order_table S_REFUNDED = {}"
| "spec_order_table S_RETURNED = {}"

definition spec_paid_gated :: "SpecOrderStatus set" where
  "spec_paid_gated = {S_PROCESSING, S_SHIPPED, S_DELIVERED, S_COMPLETED}"

fun spec_status :: "OrderStatus \<Rightarrow> SpecOrderStatus" where
  "spec_status O_PENDING = S_PENDING"
| "spec_status O_PROCESSING = S_PROCESSING"
| "spec_status O_COMPLETED = S_COMPLETED"
| "spec_status O_CANCELLED = S_CANCELLED"
| "spec_status O_REFUNDED = S_REFUNDED"
| "spec_status O_SHIPPED = S_SHIPPED"
| "spec_status O_DELIVERED = S_DELIVERED"

section \<open>Properties of a ledger\<close>

text \<open>Some payment of the order has status \<open>COMPLETED\<close>.\<close>

definition hasCompletedPaymentFor :: "Store \<Rightarrow> string \<Rightarrow> bool" where
  "hasCompletedPaymentFor s oid =
     list_ex (\<lambda>(pid, p). orderId p = oid \<and> p_status p = P_COMPLETED) (payments s)"

text \<open>Some payment of the order other than \<open>pid\<close> has status \<open>COMPLETED\<close>.\<close>

definition otherCompletedPayment :: "Store \<Rightarrow> string \<Rightarrow> string \<Rightarrow> bool" where
  "otherCompletedPayment s pid oid =
     list_ex (\<lambda>(i, p). i \<noteq> pid \<and> orderId p = oid \<and> p_status p = P_COMPLETED) (payments s)"

text \<open>
  The invariant of the specification for the order stored under \<open>oid\<close>: it is paid if and
  only if one of its payments is completed.
\<close>

definition paid_iff_completed :: "Store \<Rightarrow> string \<Rightarrow> bool" where
  "paid_iff_completed s oid =
     (case getOrderById oid s of
        None \<Rightarrow> True
      | Some ord \<Rightarrow> isPaid ord = hasCompletedPaymentFor s oid)"

text \<open>
  A completion time is carried only by payments that are \<open>COMPLETED\<close> or \<open>REFUNDED\<close>.
  Every writer of the repository keeps it so: \<^verbatim>\<open>createOrderWithPayment\<close> writes a
  \<open>PENDING\<close> payment without \<^verbatim>\<open>completedAt\<close>, the payment creation page hands
  \<^verbatim>\<open>savePayment\<close> a \<open>COMPLETED\<close> payment, and \<^verbatim>\<open>updatePaymentStatus\<close> preserves it.
\<close>

definition completedAt_wf :: "Store \<Rightarrow> bool" where
  "completedAt_wf s =
     list_all (\<lambda>(pid, p). completedAt p = None \<or> p_status p = P_COMPLETED
                  \<or> p_status p = P_REFUNDED) (payments s)"

text \<open>
  The total revenue in the words of the specification: the sum of the amount over
  exactly the stored payments whose status is \<open>COMPLETED\<close>.
\<close>

definition spec_totalRevenue :: "Store \<Rightarrow> real" where
  "spec_totalRevenue s =
     (\<Sum>(pid, p) \<in> {x \<in> set (payments s). p_status (snd x) = P_COMPLETED}. amount p)"

text \<open>What one stored payment contributes to the revenue.\<close>

definition revenue_share :: "string \<times> Payment \<Rightarrow> real" where
  "revenue_share x = (if p_status (snd x) = P_COMPLETED then amount (snd x) else 0)"

section \<open>Histories\<close>

text \<open>A sequence of statuses in which each step is a valid payment transition.\<close>

fun valid_path :: "PaymentStatus list \<Rightarrow> bool" where
  "valid_path [] = True"
| "valid_path [x] = True"
| "valid_path (x # y # xs) = (isValidStatusTransition x y \<and> valid_path (y # xs))"

text \<open>A sequence of calls of \<^verbatim>\<open>updatePaymentStatus\<close>, each on the store the last one left.\<close>

fun run_updates :: "(string \<times> PaymentStatus \<times> Clock) list \<Rightarrow> Store \<Rightarrow> Store" where
  "run_updates [] s = s"
| "run_updates ((pid, st, clk) # cs) s = run_updates cs (snd (updatePaymentStatus pid st clk s))"

section \<open>A sample ledger\<close>

definition ex_item1 :: OrderItem where
  "ex_item1 = \<lparr>item_id = ''cue'', imageUrl = [], name = ''Cue'', price = 10, quantity = 2,
     category = None\<rparr>"

definition ex_item2 :: OrderItem where
  "ex_item2 = \<lparr>item_id = ''chalk'', imageUrl = [], name = ''Chalk'', price = 5, quantity = 1,
     category = Some ''accessories''\<rparr>"

definition ex_order :: "string \<Rightarrow> OrderStatus \<Rightarrow> bool \<Rightarrow> Order" where
  "ex_order oid st paid = \<lparr>o_id = oid, o_createdAt = 10, items = [ex_item1, ex_item2],
     o_notes = None, orderNumber = ''ORD-10-7'', o_paymentMethod = ''M-Pesa'',
     receiptNumber = ''RCPT-10'', shippingAddress = ''Nairobi'', o_status = st, total = 25,
     o_userId = ''user_1'', isPaid = paid, paymentId = None, paymentReferenceCode = None,
     o_updatedAt = None\<rparr>"

definition ex_payment :: "string \<Rightarrow> PaymentStatus \<Rightarrow> nat option \<Rightarrow> Payment" where
  "ex_payment oid st done = \<lparr>orderId = oid, p_userId = ''user_1'', amount = 25,
     referenceCode = ''PAY-000010-0001'', p_receiptNumber = None, p_paymentMethod = ''cash'',
     p_status = st,
     p_createdAt = 10, p_updatedAt = None, completedAt = done, p_notes = None\<rparr>"

text \<open>
  Order 1 was paid by payment 1, shipped, and payment 1 was refunded; payment 2 is a new
  attempt for it. Order 2 awaits payment 3. Order 3 is paid by payment 4.
\<close>

definition ex_store :: Store where
  "ex_store = \<lparr>
     orders = [(''order_1'', ex_order ''order_1'' O_SHIPPED True),
               (''order_2'', ex_order ''order_2'' O_PENDING False),
               (''order_3'', ex_order ''order_3'' O_PROCESSING True)],
     payments = [(''payment_1'', ex_payment ''order_1'' P_REFUNDED (Some 20)),
                 (''payment_2'', ex_payment ''order_1'' P_PENDING None),
                 (''payment_3'', ex_payment ''order_2'' P_PENDING None),
                 (''payment_4'', ex_payment ''order_3'' P_COMPLETED (Some 30))]\<rparr>"

definition ex_clock :: Clock where
  "ex_clock = \<lparr>now_updatedAt = 40, now_completedAt = 41, now_order = 42\<rparr>"

definition ex_form :: OrderFormData where
  "ex_form = \<lparr>f_items = [], f_notes = Some ''Call on arrival'', f_paymentMethod = ''M-Pesa'',
     f_shippingAddress = ''Nairobi''\<rparr>"

definition ex_env :: SubmitEnv where
  "ex_env = \<lparr>env_orderNumberTime = 100, env_random = 7, env_createdAt = 101,
     env_receiptTime = 102, env_userTime = 103, env_idTime = 104, env_saveTime = 105\<rparr>"

section \<open>Auxiliary facts\<close>

lemmas ex_defs = ex_store_def ex_order_def ex_payment_def ex_clock_def ex_item1_def ex_item2_def

lemmas service_defs = updatePaymentStatus_def getPaymentById_def getPaymentsByOrderId_def
  updateOrderPaymentStatus_def paymentUpdateData_def isValidStatusTransition_def
  getDoc_def updateDoc_def getOrderById_def updateOrderStatus_def
  isValidOrderStatusTransition_def

lemma getDoc_updateDoc:
  "getDoc (updateDoc k f c) k' = (if k' = k then map_option f (getDoc c k) else getDoc c k')"
  by (induction c) (auto simp: getDoc_def updateDoc_def)

lemma keys_updateDoc: "map fst (updateDoc k f c) = map fst c"
  by (induction c) (auto simp: updateDoc_def)

lemma payments_updateOrderPaymentStatus:
  "payments (snd (updateOrderPaymentStatus oid b n s)) = payments s"
  by (simp add: updateOrderPaymentStatus_def split: option.splits)

lemma getPaymentById_nonempty: "getPaymentById pid s = Some p \<Longrightarrow> pid \<noteq> []"
  by (auto simp: getPaymentById_def split: if_splits)

lemma isValidStatusTransition_table:
  "isValidStatusTransition cur new \<longleftrightarrow> new \<in> spec_payment_table cur"
  by (cases cur) (auto simp: isValidStatusTransition_def)

lemma isValidOrderStatusTransition_table:
  "isValidOrderStatusTransition cur new \<longleftrightarrow>
     spec_status new \<in> spec_order_table (spec_status cur)"
  by (cases cur; cases new) (simp_all add: isValidOrderStatusTransition_def)

lemma gated_iff:
  "(st = O_PROCESSING \<or> st = O_SHIPPED \<or> st = O_DELIVERED \<or> st = O_COMPLETED)
     \<longleftrightarrow> spec_status st \<in> spec_paid_gated"
  by (cases st) (simp_all add: spec_paid_gated_def)

text \<open>A call that finds no payment, or an invalid transition, changes nothing.\<close>

lemma updatePaymentStatus_fails:
  "getPaymentById pid s = None \<or>
   (\<exists>p. getPaymentById pid s = Some p \<and> \<not> isValidStatusTransition (p_status p) st)
   \<Longrightarrow> snd (updatePaymentStatus pid st clk s) = s
       \<and> fst (updatePaymentStatus pid st clk s) \<noteq> Inr ()"
  by (auto simp: updatePaymentStatus_def getPaymentById_def split: option.splits)

text \<open>A call that finds the payment and a valid transition writes the payment.\<close>

lemma updatePaymentStatus_payments:
  assumes "getPaymentById pid s = Some p" "isValidStatusTransition (p_status p) st"
  shows "payments (snd (updatePaymentStatus pid st clk s)) =
           updateDoc pid (paymentUpdateData st clk) (payments s)"
    and "fst (updatePaymentStatus pid st clk s) = Inr ()"
  using assms
  by (auto simp: updatePaymentStatus_def getPaymentById_def Let_def
        payments_updateOrderPaymentStatus split: if_splits)

lemma updatePaymentStatus_ok_cases:
  assumes "fst (updatePaymentStatus pid st clk s) = Inr ()"
  obtains p where "getPaymentById pid s = Some p" "isValidStatusTransition (p_status p) st"
  using assms updatePaymentStatus_fails [of pid s st clk]
  by (cases "getPaymentById pid s") auto

subsection \<open>Paths of the payment table\<close>

lemma valid_from_refunded: "valid_path (P_REFUNDED # xs) \<Longrightarrow> xs = []"
  by (cases xs) (simp_all add: isValidStatusTransition_def)

lemma valid_from_completed:
  assumes "valid_path (P_COMPLETED # xs)"
  shows "xs = [] \<or> xs = [P_REFUNDED]"
proof (cases xs)
  case Nil
  then show ?thesis by simp
next
  case (Cons y ys)
  with assms have y: "y = P_REFUNDED" and "valid_path (y # ys)"
    by (auto simp: isValidStatusTransition_def)
  then have "ys = []" using valid_from_refunded by blast
  with Cons y show ?thesis by simp
qed

lemma valid_path_tail: "valid_path (x # xs) \<Longrightarrow> valid_path xs"
  by (cases xs) simp_all

lemma completed_once: "valid_path xs \<Longrightarrow> count_list xs P_COMPLETED \<le> 1"
proof (induction xs)
  case Nil
  then show ?case by simp
next
  case (Cons x xs)
  show ?case
  proof (cases "x = P_COMPLETED")
    case True
    with Cons.prems have "xs = [] \<or> xs = [P_REFUNDED]" using valid_from_completed by blast
    with True show ?thesis by auto
  next
    case False
    with Cons.IH [OF valid_path_tail [OF Cons.prems]] show ?thesis by simp
  qed
qed

subsection \<open>The completion time of a completed payment\<close>

lemma completedAt_kept:
  assumes "getPaymentById pid s = Some p" "p_status p = P_COMPLETED \<or> p_status p = P_REFUNDED"
  shows "\<exists>p'. getPaymentById pid (snd (updatePaymentStatus pid' st clk s)) = Some p'
            \<and> (p_status p' = P_COMPLETED \<or> p_status p' = P_REFUNDED)
            \<and> completedAt p' = completedAt p"
proof (cases "\<exists>q. getPaymentById pid' s = Some q \<and> isValidStatusTransition (p_status q) st")
  case False
  then have "snd (updatePaymentStatus pid' st clk s) = s"
    using updatePaymentStatus_fails [of pid' s st clk] by (cases "getPaymentById pid' s") auto
  with assms show ?thesis by simp
next
  case True
  then obtain q where q: "getPaymentById pid' s = Some q"
    "isValidStatusTransition (p_status q) st"
    by blast
  have ne: "pid \<noteq> []" using assms(1) by (rule getPaymentById_nonempty)
  have pay: "payments (snd (updatePaymentStatus pid' st clk s)) =
           updateDoc pid' (paymentUpdateData st clk) (payments s)"
    by (rule updatePaymentStatus_payments(1) [OF q])
  show ?thesis
  proof (cases "pid = pid'")
    case False
    with assms ne pay show ?thesis by (simp add: getPaymentById_def getDoc_updateDoc)
  next
    case True
    with q assms have "q = p" by simp
    with q(2) assms(2) have st: "st = P_REFUNDED \<and> p_status p = P_COMPLETED"
      by (auto simp: isValidStatusTransition_def)
    with True assms ne pay show ?thesis
      by (simp add: getPaymentById_def getDoc_updateDoc paymentUpdateData_def)
  qed
qed

lemma run_updates_completedAt:
  assumes "getPaymentById pid s = Some p" "p_status p = P_COMPLETED \<or> p_status p = P_REFUNDED"
  shows "\<exists>p'. getPaymentById pid (run_updates cs s) = Some p'
            \<and> (p_status p' = P_COMPLETED \<or> p_status p' = P_REFUNDED)
            \<and> completedAt p' = completedAt p"
  using assms
proof (induction cs arbitrary: s p)
  case Nil
  then show ?case by simp
next
  case (Cons c cs)
  obtain pid' st clk where c: "c = (pid', st, clk)" by (cases c) auto
  from completedAt_kept [OF Cons.prems, of pid' st clk]
  obtain p' where p': "getPaymentById pid (snd (updatePaymentStatus pid' st clk s)) = Some p'"
    "p_status p' = P_COMPLETED \<or> p_status p' = P_REFUNDED" "completedAt p' = completedAt p"
    by blast
  from Cons.IH [OF p'(1,2)] p'(3) c show ?case by simp
qed

subsection \<open>Orders after a payment update\<close>

lemma getDoc_orders_updateOrderPaymentStatus:
  "getDoc (orders (snd (updateOrderPaymentStatus oid' b n s))) oid =
     (if oid = oid' \<and> oid' \<noteq> []
      then map_option (\<lambda>ord. ord\<lparr>isPaid := b,
              o_status := (if b then O_PROCESSING else O_PENDING), o_updatedAt := Some n\<rparr>)
             (getDoc (orders s) oid)
      else getDoc (orders s) oid)"
proof (cases "oid' = []")
  case True
  then show ?thesis by (simp add: updateOrderPaymentStatus_def)
next
  case False
  show ?thesis
  proof (cases "getDoc (orders s) oid'")
    case None
    with False show ?thesis by (auto simp: updateOrderPaymentStatus_def)
  next
    case (Some a)
    with False show ?thesis by (simp add: updateOrderPaymentStatus_def getDoc_updateDoc)
  qed
qed

lemma list_ex_pairs: "list_ex (\<lambda>(i, q). P i q) c \<longleftrightarrow> (\<exists>i q. (i, q) \<in> set c \<and> P i q)"
  by (auto simp: list_ex_iff)

lemma updateDoc_Cons:
  "updateDoc k f ((k', v) # c) = (k', if k' = k then f v else v) # updateDoc k f c"
  by (simp add: updateDoc_def)

lemma updateDoc_Nil: "updateDoc k f [] = []"
  by (simp add: updateDoc_def)

lemma in_set_updateDoc:
  "(i, q) \<in> set (updateDoc k f c) \<longleftrightarrow> (\<exists>v. (i, v) \<in> set c \<and> q = (if i = k then f v else v))"
proof (induction c)
  case Nil
  show ?case by (simp add: updateDoc_Nil)
next
  case (Cons x c)
  obtain k' v' where x: "x = (k', v')" by (cases x)
  show ?case unfolding x updateDoc_Cons using Cons.IH by auto
qed

lemma distinct_keys_unique:
  assumes "distinct (map fst c)" "getDoc c k = Some v"
  shows "(k, w) \<in> set c \<longleftrightarrow> w = v"
proof -
  from assms(2) have m: "(k, v) \<in> set c" by (simp add: getDoc_def map_of_SomeD)
  show ?thesis
  proof
    assume "(k, w) \<in> set c"
    with assms(1) m show "w = v" by (rule eq_key_imp_eq_value [symmetric])
  next
    assume "w = v"
    with m show "(k, w) \<in> set c" by simp
  qed
qed

lemma hasCompletedPayment_code:
  "list_ex (\<lambda>(i, q). i \<noteq> pid \<and> p_status q = P_COMPLETED)
           (getPaymentsByOrderId oid (s\<lparr>payments := updateDoc pid f (payments s)\<rparr>))
         \<longleftrightarrow> oid \<noteq> [] \<and> otherCompletedPayment s pid oid"
proof (cases "oid = []")
  case True
  then show ?thesis by (simp add: getPaymentsByOrderId_def)
next
  case False
  have "(\<exists>i q. (i, q) \<in> set (filter (\<lambda>(pid, p). orderId p = oid) (updateDoc pid f (payments s)))
            \<and> i \<noteq> pid \<and> p_status q = P_COMPLETED)
        \<longleftrightarrow> (\<exists>i q. (i, q) \<in> set (payments s) \<and> i \<noteq> pid \<and> orderId q = oid
            \<and> p_status q = P_COMPLETED)"
    by (auto simp: in_set_updateDoc)
  with False show ?thesis
    by (simp add: getPaymentsByOrderId_def otherCompletedPayment_def list_ex_pairs)
qed

lemma updatePaymentStatus_success:
  assumes "getPaymentById pid s = Some p" "isValidStatusTransition (p_status p) st"
  shows "snd (updatePaymentStatus pid st clk s) =
     (if st = P_COMPLETED
      then snd (updateOrderPaymentStatus (orderId p) True (now_order clk)
             (s\<lparr>payments := updateDoc pid (paymentUpdateData st clk) (payments s)\<rparr>))
      else if (st = P_FAILED \<or> st = P_CANCELLED)
            \<and> \<not> (orderId p \<noteq> [] \<and> otherCompletedPayment s pid (orderId p))
      then snd (updateOrderPaymentStatus (orderId p) False (now_order clk)
             (s\<lparr>payments := updateDoc pid (paymentUpdateData st clk) (payments s)\<rparr>))
      else s\<lparr>payments := updateDoc pid (paymentUpdateData st clk) (payments s)\<rparr>)"
proof -
  have ne: "pid \<noteq> []" using assms(1) by (rule getPaymentById_nonempty)
  show ?thesis
    unfolding updatePaymentStatus_def Let_def hasCompletedPayment_code
    using assms ne by simp
qed

lemma updatePaymentStatus_order:
  assumes "getPaymentById pid s = Some p" "isValidStatusTransition (p_status p) st"
  shows "getDoc (orders (snd (updatePaymentStatus pid st clk s))) oid =
     (if oid = orderId p \<and> oid \<noteq> [] \<and>
         (st = P_COMPLETED \<or>
          ((st = P_FAILED \<or> st = P_CANCELLED) \<and> \<not> otherCompletedPayment s pid (orderId p)))
      then map_option (\<lambda>ord. ord\<lparr>isPaid := (st = P_COMPLETED),
              o_status := (if st = P_COMPLETED then O_PROCESSING else O_PENDING),
              o_updatedAt := Some (now_order clk)\<rparr>) (getDoc (orders s) oid)
      else getDoc (orders s) oid)"
proof (cases "st = P_COMPLETED")
  case True
  then show ?thesis
    unfolding updatePaymentStatus_success [OF assms]
    by (auto simp: getDoc_orders_updateOrderPaymentStatus)
next
  case False
  show ?thesis
  proof (cases "(st = P_FAILED \<or> st = P_CANCELLED)
            \<and> \<not> (orderId p \<noteq> [] \<and> otherCompletedPayment s pid (orderId p))")
    case True
    with False show ?thesis
      unfolding updatePaymentStatus_success [OF assms]
      by (simp add: getDoc_orders_updateOrderPaymentStatus) blast
  next
    case False
    with \<open>st \<noteq> P_COMPLETED\<close> show ?thesis
      unfolding updatePaymentStatus_success [OF assms]
      by (simp add: getDoc_orders_updateOrderPaymentStatus) blast
  qed
qed

lemma hasCompleted_before:
  assumes d: "distinct (map fst (payments s))" and p: "getPaymentById pid s = Some p"
  shows "hasCompletedPaymentFor s oid \<longleftrightarrow>
           otherCompletedPayment s pid oid \<or> (orderId p = oid \<and> p_status p = P_COMPLETED)"
proof -
  have g: "getDoc (payments s) pid = Some p"
    using p by (auto simp: getPaymentById_def split: if_splits)
  note u = distinct_keys_unique [OF d g]
  show ?thesis
    unfolding hasCompletedPaymentFor_def otherCompletedPayment_def list_ex_pairs
    using u by metis
qed

lemma hasCompleted_after:
  assumes d: "distinct (map fst (payments s))"
    and p: "getPaymentById pid s = Some p" "isValidStatusTransition (p_status p) st"
  shows "hasCompletedPaymentFor (snd (updatePaymentStatus pid st clk s)) oid \<longleftrightarrow>
           otherCompletedPayment s pid oid \<or> (orderId p = oid \<and> st = P_COMPLETED)"
proof -
  have g: "getDoc (payments s) pid = Some p"
    using p(1) by (auto simp: getPaymentById_def split: if_splits)
  note u = distinct_keys_unique [OF d g]
  have f: "orderId (paymentUpdateData st clk q) = orderId q"
    "p_status (paymentUpdateData st clk q) = st" for q
    by (simp_all add: paymentUpdateData_def)
  have "(\<exists>i q. (i, q) \<in> set (updateDoc pid (paymentUpdateData st clk) (payments s))
            \<and> orderId q = oid \<and> p_status q = P_COMPLETED)
      \<longleftrightarrow> (\<exists>i q. (i, q) \<in> set (payments s) \<and> i \<noteq> pid \<and> orderId q = oid
            \<and> p_status q = P_COMPLETED) \<or> (orderId p = oid \<and> st = P_COMPLETED)"
    (is "?L \<longleftrightarrow> ?R1 \<or> ?R2")
  proof
    assume ?L
    then obtain i q v where v: "(i, v) \<in> set (payments s)"
      "q = (if i = pid then paymentUpdateData st clk v else v)"
      "orderId q = oid" "p_status q = P_COMPLETED"
      unfolding in_set_updateDoc by blast
    show "?R1 \<or> ?R2"
    proof (cases "i = pid")
      case True
      with v(1) u have "v = p" by simp
      with True v f show ?thesis by simp
    next
      case False
      with v show ?thesis by auto
    qed
  next
    assume "?R1 \<or> ?R2"
    then show ?L
    proof
      assume ?R1
      then show ?L unfolding in_set_updateDoc by auto
    next
      assume r: ?R2
      have "(pid, p) \<in> set (payments s)" using u by simp
      then have "(pid, paymentUpdateData st clk p)
                   \<in> set (updateDoc pid (paymentUpdateData st clk) (payments s))"
        unfolding in_set_updateDoc by auto
      with r f show ?L by blast
    qed
  qed
  then show ?thesis
    unfolding hasCompletedPaymentFor_def otherCompletedPayment_def list_ex_pairs
      updatePaymentStatus_payments(1) [OF p] .
qed

subsection \<open>Sums\<close>

lemma foldl_add_sum_list:
  "foldl (\<lambda>acc x. acc + f x) a xs = a + sum_list (map f xs)" for a :: real
  by (induction xs arbitrary: a) simp_all

lemma calculateOrderTotal_sum:
  "calculateOrderTotal its = (\<Sum>item \<leftarrow> its. price item * quantity item)"
  by (simp add: calculateOrderTotal_def foldl_add_sum_list)

lemma getTotalRevenue_sum_list:
  "getTotalRevenue s =
     sum_list (map (\<lambda>(pid, p). amount p) (filter (\<lambda>(pid, p). p_status p = P_COMPLETED) (payments s)))"
proof -
  have eq: "(\<lambda>total (pid, payment). total + (if amount payment = 0 then 0 else amount payment))
          = (\<lambda>acc x. acc + (\<lambda>(pid, p). amount p) x)"
    by (auto simp: fun_eq_iff)
  show ?thesis
    unfolding getTotalRevenue_def Let_def eq foldl_add_sum_list by simp
qed

lemma getTotalRevenue_spec:
  assumes "distinct (map fst (payments s))"
  shows "getTotalRevenue s = spec_totalRevenue s"
proof -
  from assms have d: "distinct (filter (\<lambda>(pid, p). p_status p = P_COMPLETED) (payments s))"
    by (simp add: distinct_map)
  have "set (filter (\<lambda>(pid, p). p_status p = P_COMPLETED) (payments s))
      = {x \<in> set (payments s). p_status (snd x) = P_COMPLETED}"
    by (auto)
  with sum_list_distinct_conv_sum_set [OF d, of "\<lambda>(pid, p). amount p"]
  show ?thesis by (simp add: getTotalRevenue_sum_list spec_totalRevenue_def)
qed

lemma payments_keys_updatePaymentStatus:
  "map fst (payments (snd (updatePaymentStatus pid st clk s))) = map fst (payments s)"
proof (cases "\<exists>q. getPaymentById pid s = Some q \<and> isValidStatusTransition (p_status q) st")
  case False
  then have "snd (updatePaymentStatus pid st clk s) = s"
    using updatePaymentStatus_fails [of pid s st clk] by (cases "getPaymentById pid s") auto
  then show ?thesis by simp
next
  case True
  then obtain q where q: "getPaymentById pid s = Some q" "isValidStatusTransition (p_status q) st"
    by blast
  show ?thesis by (simp add: updatePaymentStatus_payments(1) [OF q] keys_updateDoc)
qed

lemma updateDoc_absent: "k \<notin> fst ` set c \<Longrightarrow> updateDoc k f c = c"
  by (induction c) (auto simp: updateDoc_def)

lemma sum_list_updateDoc:
  fixes g :: "string \<times> 'a \<Rightarrow> real"
  assumes "distinct (map fst c)" "getDoc c k = Some v"
  shows "sum_list (map g (updateDoc k f c)) = sum_list (map g c) - g (k, v) + g (k, f v)"
  using assms
proof (induction c)
  case Nil
  then show ?case by (simp add: getDoc_def)
next
  case (Cons x c)
  obtain k' v' where x: "x = (k', v')" by (cases x)
  show ?case
  proof (cases "k' = k")
    case True
    with Cons.prems x have "v' = v" and "k \<notin> fst ` set c" by (auto simp: getDoc_def)
    then have "updateDoc k f c = c"
      by (simp add: updateDoc_absent)
    then have "updateDoc k f (x # c) = (k, f v) # c"
      using x True \<open>v' = v\<close> by (simp add: updateDoc_def)
    with x True \<open>v' = v\<close> show ?thesis by simp
  next
    case False
    with Cons.prems x have "getDoc c k = Some v" "distinct (map fst c)"
      by (auto simp: getDoc_def)
    from Cons.IH [OF this(2,1)] x False show ?thesis
      by (simp add: updateDoc_def)
  qed
qed

lemma getTotalRevenue_shares: "getTotalRevenue s = sum_list (map revenue_share (payments s))"
proof -
  have "(\<lambda>x. if (case x of (pid, p) \<Rightarrow> p_status p = P_COMPLETED)
             then (case x of (pid, p) \<Rightarrow> amount p) else 0) = revenue_share"
    by (auto simp: fun_eq_iff revenue_share_def)
  then show ?thesis
    by (simp add: getTotalRevenue_sum_list sum_list_map_filter')
qed

lemma revenue_after_update:
  assumes "distinct (map fst (payments s))" "getPaymentById pid s = Some p"
    "isValidStatusTransition (p_status p) st"
  shows "getTotalRevenue (snd (updatePaymentStatus pid st clk s)) =
           getTotalRevenue s - (if p_status p = P_COMPLETED then amount p else 0)
             + (if st = P_COMPLETED then amount p else 0)"
proof -
  have g: "getDoc (payments s) pid = Some p"
    using assms(2) by (auto simp: getPaymentById_def split: if_splits)
  show ?thesis
    unfolding getTotalRevenue_shares updatePaymentStatus_payments(1) [OF assms(2,3)]
      sum_list_updateDoc [OF assms(1) g]
    by (simp add: revenue_share_def paymentUpdateData_def)
qed

lemma getDoc_setDoc: "getDoc (setDoc k v c) k = Some v"
  by (induction c) (auto simp: getDoc_def)

subsection \<open>Completion times\<close>

lemma list_all_pairs: "list_all (\<lambda>(i, q). P i q) c \<longleftrightarrow> (\<forall>i q. (i, q) \<in> set c \<longrightarrow> P i q)"
  by (auto simp: list_all_iff)

lemma in_set_setDoc: "(i, q) \<in> set (setDoc k v c) \<Longrightarrow> (i, q) \<in> set c \<or> (i = k \<and> q = v)"
  by (induction c) (auto split: if_splits)

lemma completedAt_wf_setDoc:
  assumes "completedAt_wf s"
    "completedAt v = None \<or> p_status v = P_COMPLETED \<or> p_status v = P_REFUNDED"
  shows "completedAt_wf (s\<lparr>payments := setDoc k v (payments s)\<rparr>)"
  unfolding completedAt_wf_def list_all_pairs
proof (intro allI impI)
  fix i q
  assume "(i, q) \<in> set (payments (s\<lparr>payments := setDoc k v (payments s)\<rparr>))"
  then have "(i, q) \<in> set (payments s) \<or> (i = k \<and> q = v)"
    using in_set_setDoc [of i q k v "payments s"] by simp
  then show "completedAt q = None \<or> p_status q = P_COMPLETED \<or> p_status q = P_REFUNDED"
  proof
    assume "(i, q) \<in> set (payments s)"
    with assms(1) show ?thesis unfolding completedAt_wf_def list_all_pairs by blast
  next
    assume "i = k \<and> q = v"
    with assms(2) show ?thesis by simp
  qed
qed

lemma completedAt_wf_savePayment:
  assumes "completedAt_wf s"
    "completedAt pd = None \<or> p_status pd = P_COMPLETED \<or> p_status pd = P_REFUNDED"
  shows "completedAt_wf (snd (savePayment pid pd n t s))"
proof -
  let ?v = "pd\<lparr>
            p_createdAt := (if p_createdAt pd = 0 then t else p_createdAt pd),
            p_updatedAt := Some t,
            completedAt := (if p_status pd = P_COMPLETED
                               \<and> (completedAt pd = None \<or> completedAt pd = Some 0)
                            then Some t else completedAt pd)\<rparr>"
  have "completedAt ?v = None \<or> p_status ?v = P_COMPLETED \<or> p_status ?v = P_REFUNDED"
    using assms(2) by auto
  from completedAt_wf_setDoc [OF assms(1) this]
  show ?thesis by (simp add: savePayment_def Let_def)
qed


subsection \<open>Order statuses of the enum\<close>

text \<open>
  On the seven statuses that the enum has, \<^verbatim>\<open>updateOrderStatus\<close> follows the table of
  the specification and the payment gate: it succeeds exactly when the requested status
  is in the row of the current one and the gate lets it pass; the transition check comes
  first.
\<close>

lemma updateOrderStatus_on_enum:
  assumes "getOrderById oid s = Some ord"
  shows "(fst (updateOrderStatus oid st now s) = Inr () \<longleftrightarrow>
            spec_status st \<in> spec_order_table (spec_status (o_status ord)) \<and>
            \<not> (spec_status st \<in> spec_paid_gated \<and> \<not> isPaid ord))
       \<and> (spec_status st \<notin> spec_order_table (spec_status (o_status ord)) \<longrightarrow>
            updateOrderStatus oid st now s =
              (Inl (InvalidOrderStatusTransition (o_status ord) st), s))
       \<and> (spec_status st \<in> spec_order_table (spec_status (o_status ord)) \<and>
          spec_status st \<in> spec_paid_gated \<and> \<not> isPaid ord \<longrightarrow>
            updateOrderStatus oid st now s = (Inl (PaymentNotCompleted st), s))
       \<and> (fst (updateOrderStatus oid st now s) = Inr () \<longrightarrow>
            map_option o_status (getOrderById oid (snd (updateOrderStatus oid st now s)))
              = Some st)"
  using assms
  by (auto simp: updateOrderStatus_def isValidOrderStatusTransition_table gated_iff
        getOrderById_def getDoc_updateDoc)

lemma OrderStatus_members:
  "(UNIV :: OrderStatus set) =
      {O_PENDING, O_PROCESSING, O_COMPLETED, O_CANCELLED, O_REFUNDED, O_SHIPPED, O_DELIVERED}"
proof -
  have "x \<in> {O_PENDING, O_PROCESSING, O_COMPLETED, O_CANCELLED, O_REFUNDED, O_SHIPPED,
      O_DELIVERED}" for x :: OrderStatus
    by (cases x) simp_all
  then show ?thesis by blast
qed

section \<open>The claims\<close>

text \<open>
  C1, as stated: after any call of \<^verbatim>\<open>updatePaymentStatus\<close>, an order is paid if and only
  if one of its payments is completed. The call that moves the only completed payment of
  an order to \<open>REFUNDED\<close> does not touch the order: in the sample ledger, order 3 is paid
  by payment 4 and the invariant holds for it; after payment 4 is refunded the order is
  still marked paid and none of its payments is completed.
\<close>

theorem refund_leaves_order_paid:
  "distinct (map fst (payments ex_store))
   \<and> paid_iff_completed ex_store ''order_3''
   \<and> fst (updatePaymentStatus ''payment_4'' P_REFUNDED ex_clock ex_store) = Inr ()
   \<and> map_option isPaid (getOrderById ''order_3''
        (snd (updatePaymentStatus ''payment_4'' P_REFUNDED ex_clock ex_store))) = Some True
   \<and> \<not> hasCompletedPaymentFor
        (snd (updatePaymentStatus ''payment_4'' P_REFUNDED ex_clock ex_store)) ''order_3''"
  by (simp add: service_defs ex_defs paid_iff_completed_def hasCompletedPaymentFor_def)

text \<open>
  C1, amended: in a ledger whose payment ids are unique, for every order with a
  non-empty id, immediately after a call of \<^verbatim>\<open>updatePaymentStatus\<close> settles: a call
  that fails changes nothing; a successful transition into \<open>COMPLETED\<close> makes the
  payment's order paid if and only if one of its payments is completed, whatever the
  ledger was; so does a successful transition into \<open>FAILED\<close> or \<open>CANCELLED\<close> when no
  other payment of the order is completed; and for every order, every successful call
  keeps the equivalence if it held before, with one exception: after a successful
  transition into \<open>REFUNDED\<close> of a payment whose order has no other completed payment,
  that order is still marked paid and none of its payments is completed.
\<close>

theorem paid_iff_completed_after_update:
  assumes d: "distinct (map fst (payments s))" and ne: "oid \<noteq> []"
  shows "(fst (updatePaymentStatus pid st clk s) \<noteq> Inr () \<longrightarrow>
            snd (updatePaymentStatus pid st clk s) = s)
       \<and> (\<forall>p. getPaymentById pid s = Some p \<and> isValidStatusTransition (p_status p) st \<longrightarrow>
            (st = P_COMPLETED \<and> orderId p = oid \<longrightarrow>
               paid_iff_completed (snd (updatePaymentStatus pid st clk s)) oid)
          \<and> ((st = P_FAILED \<or> st = P_CANCELLED) \<and> orderId p = oid
                \<and> \<not> otherCompletedPayment s pid oid \<longrightarrow>
               paid_iff_completed (snd (updatePaymentStatus pid st clk s)) oid)
          \<and> (paid_iff_completed s oid
                \<and> \<not> (st = P_REFUNDED \<and> orderId p = oid \<and> \<not> otherCompletedPayment s pid oid) \<longrightarrow>
               paid_iff_completed (snd (updatePaymentStatus pid st clk s)) oid)
          \<and> (paid_iff_completed s oid \<and> getOrderById oid s \<noteq> None
                \<and> st = P_REFUNDED \<and> orderId p = oid \<and> \<not> otherCompletedPayment s pid oid \<longrightarrow>
               \<not> paid_iff_completed (snd (updatePaymentStatus pid st clk s)) oid))"
proof (intro conjI allI impI)
  assume "fst (updatePaymentStatus pid st clk s) \<noteq> Inr ()"
  then show "snd (updatePaymentStatus pid st clk s) = s"
    using updatePaymentStatus_fails [of pid s st clk] updatePaymentStatus_payments(2) [of pid s _ st clk]
    by (cases "getPaymentById pid s") auto
next
  fix p
  assume pv: "getPaymentById pid s = Some p \<and> isValidStatusTransition (p_status p) st"
  then have p: "getPaymentById pid s = Some p" "isValidStatusTransition (p_status p) st"
    by simp_all
  let ?s' = "snd (updatePaymentStatus pid st clk s)"
  let ?other = "otherCompletedPayment s pid oid"
  define touched where "touched \<longleftrightarrow> oid = orderId p \<and>
    (st = P_COMPLETED \<or> ((st = P_FAILED \<or> st = P_CANCELLED) \<and> \<not> ?other))"
  define F :: "Order \<Rightarrow> Order" where "F = (\<lambda>ord. ord\<lparr>isPaid := (st = P_COMPLETED),
              o_status := (if st = P_COMPLETED then O_PROCESSING else O_PENDING),
              o_updatedAt := Some (now_order clk)\<rparr>)"
  have o: "getDoc (orders ?s') oid =
      (if touched then map_option F (getDoc (orders s) oid) else getDoc (orders s) oid)"
    unfolding updatePaymentStatus_order [OF p] touched_def F_def using ne by auto
  have h1: "hasCompletedPaymentFor ?s' oid \<longleftrightarrow> ?other \<or> (orderId p = oid \<and> st = P_COMPLETED)"
    by (rule hasCompleted_after [OF d p])
  have h0: "hasCompletedPaymentFor s oid \<longleftrightarrow>
      ?other \<or> (orderId p = oid \<and> p_status p = P_COMPLETED)"
    by (rule hasCompleted_before [OF d p(1)])
  have cur: "p_status p = P_COMPLETED \<longleftrightarrow> st = P_REFUNDED"
    using p(2) by (cases "p_status p"; cases st) (simp_all add: isValidStatusTransition_def)
  have est: "paid_iff_completed ?s' oid" if t: touched
  proof (cases "getDoc (orders s) oid")
    case None
    with o have "getDoc (orders ?s') oid = None" by simp
    then show ?thesis by (simp add: paid_iff_completed_def getOrderById_def)
  next
    case (Some ord)
    with o t have g: "getDoc (orders ?s') oid = Some (F ord)" by simp
    have "isPaid (F ord) \<longleftrightarrow> st = P_COMPLETED" by (simp add: F_def)
    also have "\<dots> \<longleftrightarrow> hasCompletedPaymentFor ?s' oid"
      using t h1 unfolding touched_def by auto
    finally show ?thesis using g by (simp add: paid_iff_completed_def getOrderById_def)
  qed
  {
    assume "st = P_COMPLETED \<and> orderId p = oid"
    then have touched by (simp add: touched_def)
    then show "paid_iff_completed ?s' oid" by (rule est)
  }
  {
    assume "(st = P_FAILED \<or> st = P_CANCELLED) \<and> orderId p = oid \<and> \<not> ?other"
    then have touched by (auto simp: touched_def)
    then show "paid_iff_completed ?s' oid" by (rule est)
  }
  {
    assume a: "paid_iff_completed s oid
                \<and> \<not> (st = P_REFUNDED \<and> orderId p = oid \<and> \<not> ?other)"
    show "paid_iff_completed ?s' oid"
    proof (cases touched)
      case True
      then show ?thesis by (rule est)
    next
      case False
      show ?thesis
      proof (cases "getDoc (orders s) oid")
        case None
        with o have "getDoc (orders ?s') oid = None" by simp
        then show ?thesis by (simp add: paid_iff_completed_def getOrderById_def)
      next
        case (Some ord)
        with o False have g: "getDoc (orders ?s') oid = Some ord" by simp
        from a Some have i: "isPaid ord \<longleftrightarrow> hasCompletedPaymentFor s oid"
          by (simp add: paid_iff_completed_def getOrderById_def)
        have "hasCompletedPaymentFor ?s' oid \<longleftrightarrow> hasCompletedPaymentFor s oid"
          using False a h0 h1 cur unfolding touched_def by auto
        with i g show ?thesis by (simp add: paid_iff_completed_def getOrderById_def)
      qed
    qed
  }
  {
    assume a: "paid_iff_completed s oid \<and> getOrderById oid s \<noteq> None
                \<and> st = P_REFUNDED \<and> orderId p = oid \<and> \<not> ?other"
    then obtain ord where ord: "getDoc (orders s) oid = Some ord"
      by (auto simp: getOrderById_def)
    from a have nt: "\<not> touched" by (simp add: touched_def)
    with o ord have g: "getDoc (orders ?s') oid = Some ord" by simp
    from a ord h0 cur have "isPaid ord" by (simp add: paid_iff_completed_def getOrderById_def)
    moreover from a h1 have "\<not> hasCompletedPaymentFor ?s' oid" by simp
    ultimately show "\<not> paid_iff_completed ?s' oid"
      using g by (simp add: paid_iff_completed_def getOrderById_def)
  }
qed

theorem paid_iff_completed_after_update_witness:
  "distinct (map fst (payments ex_store)) \<and> ''order_2'' \<noteq> []
   \<and> getPaymentById ''payment_3'' ex_store = Some (ex_payment ''order_2'' P_PENDING None)
   \<and> isValidStatusTransition P_PENDING P_COMPLETED
   \<and> paid_iff_completed
        (snd (updatePaymentStatus ''payment_3'' P_COMPLETED ex_clock ex_store)) ''order_2''
   \<and> getPaymentById ''payment_2'' ex_store = Some (ex_payment ''order_1'' P_PENDING None)
   \<and> isValidStatusTransition P_PENDING P_FAILED
   \<and> \<not> otherCompletedPayment ex_store ''payment_2'' ''order_1''
   \<and> \<not> paid_iff_completed ex_store ''order_1''
   \<and> paid_iff_completed
        (snd (updatePaymentStatus ''payment_2'' P_FAILED ex_clock ex_store)) ''order_1''
   \<and> getPaymentById ''payment_4'' ex_store = Some (ex_payment ''order_3'' P_COMPLETED (Some 30))
   \<and> isValidStatusTransition P_COMPLETED P_REFUNDED
   \<and> paid_iff_completed ex_store ''order_2''
   \<and> paid_iff_completed
        (snd (updatePaymentStatus ''payment_4'' P_REFUNDED ex_clock ex_store)) ''order_2''
   \<and> paid_iff_completed ex_store ''order_3''
   \<and> \<not> otherCompletedPayment ex_store ''payment_4'' ''order_3''
   \<and> \<not> paid_iff_completed
        (snd (updatePaymentStatus ''payment_4'' P_REFUNDED ex_clock ex_store)) ''order_3''"
proof -
  have d: "distinct (map fst (payments ex_store))" by (simp add: ex_store_def)
  have p3: "getPaymentById ''payment_3'' ex_store = Some (ex_payment ''order_2'' P_PENDING None)"
    and p2: "getPaymentById ''payment_2'' ex_store = Some (ex_payment ''order_1'' P_PENDING None)"
    and p4: "getPaymentById ''payment_4'' ex_store
               = Some (ex_payment ''order_3'' P_COMPLETED (Some 30))"
    by (simp_all add: getPaymentById_def getDoc_def ex_store_def)
  have v: "isValidStatusTransition P_PENDING P_COMPLETED"
    "isValidStatusTransition P_PENDING P_FAILED"
    "isValidStatusTransition P_COMPLETED P_REFUNDED"
    by (simp_all add: isValidStatusTransition_def)
  have f: "orderId (ex_payment oid st c) = oid" "p_status (ex_payment oid st c) = st"
    for oid st c
    by (simp_all add: ex_payment_def)
  have i2: "paid_iff_completed ex_store ''order_2''"
    and i3: "paid_iff_completed ex_store ''order_3''"
    and i1: "\<not> paid_iff_completed ex_store ''order_1''"
    by (simp_all add: paid_iff_completed_def hasCompletedPaymentFor_def getOrderById_def
          getDoc_def ex_defs)
  have o3: "getOrderById ''order_3'' ex_store \<noteq> None"
    by (simp add: getOrderById_def getDoc_def ex_store_def)
  have n2: "\<not> otherCompletedPayment ex_store ''payment_2'' ''order_1''"
    and n4: "\<not> otherCompletedPayment ex_store ''payment_4'' ''order_3''"
    by (simp_all add: otherCompletedPayment_def ex_store_def ex_payment_def)
  have a: "paid_iff_completed
        (snd (updatePaymentStatus ''payment_3'' P_COMPLETED ex_clock ex_store)) ''order_2''"
    using paid_iff_completed_after_update [OF d, of "''order_2''" "''payment_3''" P_COMPLETED
        ex_clock] p3 v f
    by auto
  have b: "paid_iff_completed
        (snd (updatePaymentStatus ''payment_2'' P_FAILED ex_clock ex_store)) ''order_1''"
    using paid_iff_completed_after_update [OF d, of "''order_1''" "''payment_2''" P_FAILED
        ex_clock] p2 v f n2
    by auto
  have c: "paid_iff_completed
        (snd (updatePaymentStatus ''payment_4'' P_REFUNDED ex_clock ex_store)) ''order_2''"
    using paid_iff_completed_after_update [OF d, of "''order_2''" "''payment_4''" P_REFUNDED
        ex_clock] p4 v f i2
    by auto
  have e: "\<not> paid_iff_completed
        (snd (updatePaymentStatus ''payment_4'' P_REFUNDED ex_clock ex_store)) ''order_3''"
    using paid_iff_completed_after_update [OF d, of "''order_3''" "''payment_4''" P_REFUNDED
        ex_clock] p4 v f i3 o3 n4
    by auto
  from d p3 p2 p4 v i1 i2 i3 n2 n4 a b c e show ?thesis by simp
qed

text \<open>
  C2, as stated: when a payment moves into \<open>FAILED\<close> or \<open>CANCELLED\<close> and no other
  payment of the order is completed, the order's status is reverted to \<open>PENDING\<close> only
  if it had advanced because of the payment, and is left untouched otherwise, for
  example when the order has been shipped. In the sample ledger order 1 is shipped;
  when its payment 2 fails, the order's status becomes \<open>PENDING\<close>.
\<close>

theorem failed_payment_resets_shipped_order:
  "getPaymentById ''payment_2'' ex_store = Some (ex_payment ''order_1'' P_PENDING None)
   \<and> fst (updatePaymentStatus ''payment_2'' P_FAILED ex_clock ex_store) = Inr ()
   \<and> \<not> otherCompletedPayment ex_store ''payment_2'' ''order_1''
   \<and> map_option o_status (getOrderById ''order_1'' ex_store) = Some O_SHIPPED
   \<and> map_option o_status (getOrderById ''order_1''
        (snd (updatePaymentStatus ''payment_2'' P_FAILED ex_clock ex_store))) = Some O_PENDING"
  by (simp add: service_defs ex_defs otherCompletedPayment_def)

text \<open>
  C2, amended: when a payment moves into \<open>FAILED\<close> or \<open>CANCELLED\<close> and no other payment
  of the same order is completed, the parent order, if it exists, gets \<^verbatim>\<open>isPaid\<close> false
  and the status \<open>PENDING\<close>, whatever its status was; when another payment of the order
  is completed, the order is left as it is.
\<close>

theorem failed_payment_resets_order:
  assumes "getPaymentById pid s = Some p" "isValidStatusTransition (p_status p) st"
    "st = P_FAILED \<or> st = P_CANCELLED" "orderId p \<noteq> []"
    "getOrderById (orderId p) s = Some ord"
  shows "getOrderById (orderId p) (snd (updatePaymentStatus pid st clk s)) =
           (if otherCompletedPayment s pid (orderId p) then Some ord
            else Some (ord\<lparr>isPaid := False, o_status := O_PENDING,
                          o_updatedAt := Some (now_order clk)\<rparr>))"
  using assms(3,4,5) unfolding getOrderById_def updatePaymentStatus_order [OF assms(1,2)]
  by auto

theorem failed_payment_resets_order_witness:
  "getPaymentById ''payment_3'' ex_store = Some (ex_payment ''order_2'' P_PENDING None)
   \<and> isValidStatusTransition P_PENDING P_CANCELLED
   \<and> getOrderById ''order_2'' ex_store = Some (ex_order ''order_2'' O_PENDING False)
   \<and> \<not> otherCompletedPayment ex_store ''payment_3'' ''order_2''
   \<and> getOrderById ''order_2''
        (snd (updatePaymentStatus ''payment_3'' P_CANCELLED ex_clock ex_store))
      = Some ((ex_order ''order_2'' O_PENDING False)
               \<lparr>isPaid := False, o_status := O_PENDING, o_updatedAt := Some 42\<rparr>)"
proof -
  have p: "getPaymentById ''payment_3'' ex_store = Some (ex_payment ''order_2'' P_PENDING None)"
    by (simp add: getPaymentById_def getDoc_def ex_store_def)
  have v: "isValidStatusTransition (p_status (ex_payment ''order_2'' P_PENDING None)) P_CANCELLED"
    by (simp add: isValidStatusTransition_def ex_payment_def)
  have n: "orderId (ex_payment ''order_2'' P_PENDING None) \<noteq> []"
    by (simp add: ex_payment_def)
  have o: "getOrderById (orderId (ex_payment ''order_2'' P_PENDING None)) ex_store
             = Some (ex_order ''order_2'' O_PENDING False)"
    by (simp add: getOrderById_def getDoc_def ex_store_def ex_payment_def)
  have c: "\<not> otherCompletedPayment ex_store ''payment_3'' ''order_2''"
    by (simp add: otherCompletedPayment_def ex_store_def ex_payment_def)
  show ?thesis
    using p v o c failed_payment_resets_order [OF p v _ n o, of ex_clock]
    by (simp add: ex_payment_def ex_clock_def)
qed

text \<open>
  C3, as stated: when a payment moves into \<open>COMPLETED\<close>, the order is changed only if
  it is not yet paid, the change sets \<^verbatim>\<open>paymentId\<close> and \<^verbatim>\<open>paymentReferenceCode\<close>, and
  the status advances to \<open>PROCESSING\<close> only from \<open>PENDING\<close>. In the sample ledger order 1
  is paid and shipped; when its payment 2 completes, its status becomes \<open>PROCESSING\<close>.
  Order 2 is unpaid; when its payment 3 completes it is marked paid, and its
  \<^verbatim>\<open>paymentId\<close> and \<^verbatim>\<open>paymentReferenceCode\<close> are still absent.
\<close>

theorem completed_payment_overwrites_status:
  "map_option isPaid (getOrderById ''order_1'' ex_store) = Some True
   \<and> map_option o_status (getOrderById ''order_1'' ex_store) = Some O_SHIPPED
   \<and> fst (updatePaymentStatus ''payment_2'' P_COMPLETED ex_clock ex_store) = Inr ()
   \<and> map_option o_status (getOrderById ''order_1''
        (snd (updatePaymentStatus ''payment_2'' P_COMPLETED ex_clock ex_store)))
      = Some O_PROCESSING
   \<and> map_option isPaid (getOrderById ''order_2'' ex_store) = Some False
   \<and> fst (updatePaymentStatus ''payment_3'' P_COMPLETED ex_clock ex_store) = Inr ()
   \<and> map_option isPaid (getOrderById ''order_2''
        (snd (updatePaymentStatus ''payment_3'' P_COMPLETED ex_clock ex_store)))
      = Some True
   \<and> map_option paymentId (getOrderById ''order_2''
        (snd (updatePaymentStatus ''payment_3'' P_COMPLETED ex_clock ex_store)))
      = Some None
   \<and> map_option paymentReferenceCode (getOrderById ''order_2''
        (snd (updatePaymentStatus ''payment_3'' P_COMPLETED ex_clock ex_store)))
      = Some None"
  by (simp add: service_defs ex_defs)

text \<open>
  C3, amended: when a payment moves into \<open>COMPLETED\<close>, the parent order, if it exists,
  gets \<^verbatim>\<open>isPaid\<close> true and the status \<open>PROCESSING\<close>, whether or not it was paid already
  and whatever its status was.
\<close>

theorem completed_payment_marks_order:
  assumes "getPaymentById pid s = Some p" "isValidStatusTransition (p_status p) P_COMPLETED"
    "orderId p \<noteq> []" "getOrderById (orderId p) s = Some ord"
  shows "\<exists>ord'. getOrderById (orderId p) (snd (updatePaymentStatus pid P_COMPLETED clk s)) = Some ord'
           \<and> isPaid ord' \<and> o_status ord' = O_PROCESSING
           \<and> o_updatedAt ord' = Some (now_order clk)"
  using assms(3,4) unfolding getOrderById_def updatePaymentStatus_order [OF assms(1,2)]
  by auto

theorem completed_payment_marks_order_witness:
  "getPaymentById ''payment_3'' ex_store = Some (ex_payment ''order_2'' P_PENDING None)
   \<and> isValidStatusTransition P_PENDING P_COMPLETED
   \<and> getOrderById ''order_2'' ex_store = Some (ex_order ''order_2'' O_PENDING False)
   \<and> map_option isPaid (getOrderById ''order_2''
        (snd (updatePaymentStatus ''payment_3'' P_COMPLETED ex_clock ex_store)))
      = Some True
   \<and> map_option o_status (getOrderById ''order_2''
        (snd (updatePaymentStatus ''payment_3'' P_COMPLETED ex_clock ex_store)))
      = Some O_PROCESSING
   \<and> map_option o_updatedAt (getOrderById ''order_2''
        (snd (updatePaymentStatus ''payment_3'' P_COMPLETED ex_clock ex_store)))
      = Some (Some 42)"
proof -
  have p: "getPaymentById ''payment_3'' ex_store = Some (ex_payment ''order_2'' P_PENDING None)"
    by (simp add: getPaymentById_def getDoc_def ex_store_def)
  have v: "isValidStatusTransition (p_status (ex_payment ''order_2'' P_PENDING None)) P_COMPLETED"
    by (simp add: isValidStatusTransition_def ex_payment_def)
  have n: "orderId (ex_payment ''order_2'' P_PENDING None) \<noteq> []"
    by (simp add: ex_payment_def)
  have o: "getOrderById (orderId (ex_payment ''order_2'' P_PENDING None)) ex_store
             = Some (ex_order ''order_2'' O_PENDING False)"
    by (simp add: getOrderById_def getDoc_def ex_store_def ex_payment_def)
  show ?thesis
    using p v o completed_payment_marks_order [OF p v n o, of ex_clock]
    by (auto simp: ex_payment_def ex_clock_def)
qed

text \<open>
  C4. The table of the claim lets an order move from \<open>SHIPPED\<close> and from \<open>DELIVERED\<close> to
  \<open>RETURNED\<close>, and the table of the code names \<^verbatim>\<open>OrderStatus.RETURNED\<close> in both rows.
  The enum has no member \<^verbatim>\<open>RETURNED\<close>: the two entries are \<^verbatim>\<open>undefined\<close>, and the
  seven members are all the statuses a caller can request. For the shipped and paid
  order 1 of the sample ledger, the request for \<open>DELIVERED\<close> succeeds and the request
  for each of the six other members fails with the invalid-transition error: no request
  moves the order to \<open>RETURNED\<close>.
\<close>

theorem returned_is_unreachable:
  "(UNIV :: OrderStatus set) =
      {O_PENDING, O_PROCESSING, O_COMPLETED, O_CANCELLED, O_REFUNDED, O_SHIPPED, O_DELIVERED}
   \<and> S_RETURNED \<in> spec_order_table S_SHIPPED
   \<and> S_RETURNED \<in> spec_order_table S_DELIVERED
   \<and> orderValidTransitions O_SHIPPED = [Some O_DELIVERED, None]
   \<and> orderValidTransitions O_DELIVERED = [Some O_COMPLETED, None]
   \<and> getOrderById ''order_1'' ex_store = Some (ex_order ''order_1'' O_SHIPPED True)
   \<and> fst (updateOrderStatus ''order_1'' O_DELIVERED 50 ex_store) = Inr ()
   \<and> updateOrderStatus ''order_1'' O_PENDING 50 ex_store =
       (Inl (InvalidOrderStatusTransition O_SHIPPED O_PENDING), ex_store)
   \<and> updateOrderStatus ''order_1'' O_PROCESSING 50 ex_store =
       (Inl (InvalidOrderStatusTransition O_SHIPPED O_PROCESSING), ex_store)
   \<and> updateOrderStatus ''order_1'' O_COMPLETED 50 ex_store =
       (Inl (InvalidOrderStatusTransition O_SHIPPED O_COMPLETED), ex_store)
   \<and> updateOrderStatus ''order_1'' O_CANCELLED 50 ex_store =
       (Inl (InvalidOrderStatusTransition O_SHIPPED O_CANCELLED), ex_store)
   \<and> updateOrderStatus ''order_1'' O_REFUNDED 50 ex_store =
       (Inl (InvalidOrderStatusTransition O_SHIPPED O_REFUNDED), ex_store)
   \<and> updateOrderStatus ''order_1'' O_SHIPPED 50 ex_store =
       (Inl (InvalidOrderStatusTransition O_SHIPPED O_SHIPPED), ex_store)"
proof -
  have r: "updateOrderStatus ''order_1'' st 50 ex_store =
       (Inl (InvalidOrderStatusTransition O_SHIPPED st), ex_store)"
    if "st \<noteq> O_DELIVERED" for st
    using that
    by (cases st) (simp_all add: updateOrderStatus_def getOrderById_def getDoc_def
        isValidOrderStatusTransition_def ex_store_def ex_order_def)
  have ok: "fst (updateOrderStatus ''order_1'' O_DELIVERED 50 ex_store) = Inr ()"
    by (simp add: updateOrderStatus_def getOrderById_def getDoc_def
        isValidOrderStatusTransition_def ex_store_def ex_order_def)
  have g: "getOrderById ''order_1'' ex_store = Some (ex_order ''order_1'' O_SHIPPED True)"
    by (simp add: getOrderById_def getDoc_def ex_store_def)
  from OrderStatus_members r ok g show ?thesis by simp
qed

text \<open>
  C5. For a stored payment and a target status that is not in the row of the payment's
  current status in the specification's payment table, \<^verbatim>\<open>updatePaymentStatus\<close> fails
  with the invalid-transition error and returns the store as it was; for a payment in
  \<open>REFUNDED\<close> status this is so for every target status.
\<close>

theorem updatePaymentStatus_rejects_unreachable:
  assumes "getPaymentById pid s = Some p"
  shows "(st \<notin> spec_payment_table (p_status p) \<longrightarrow>
           updatePaymentStatus pid st clk s =
             (Inl (InvalidStatusTransition (p_status p) st), s))
       \<and> (p_status p = P_REFUNDED \<longrightarrow>
           (\<forall>st'. updatePaymentStatus pid st' clk s =
                    (Inl (InvalidStatusTransition P_REFUNDED st'), s)))"
proof -
  have ne: "pid \<noteq> []" using assms by (rule getPaymentById_nonempty)
  have rej: "updatePaymentStatus pid x clk s = (Inl (InvalidStatusTransition (p_status p) x), s)"
    if "x \<notin> spec_payment_table (p_status p)" for x
    using that assms ne by (simp add: updatePaymentStatus_def isValidStatusTransition_table)
  show ?thesis
  proof (intro conjI impI allI)
    assume "st \<notin> spec_payment_table (p_status p)"
    then show "updatePaymentStatus pid st clk s =
        (Inl (InvalidStatusTransition (p_status p) st), s)"
      by (rule rej)
  next
    fix st'
    assume r: "p_status p = P_REFUNDED"
    then have "st' \<notin> spec_payment_table (p_status p)" by simp
    from rej [OF this] r
    show "updatePaymentStatus pid st' clk s = (Inl (InvalidStatusTransition P_REFUNDED st'), s)"
      by simp
  qed
qed

theorem updatePaymentStatus_rejects_unreachable_witness:
  "getPaymentById ''payment_1'' ex_store = Some (ex_payment ''order_1'' P_REFUNDED (Some 20))
   \<and> P_COMPLETED \<notin> spec_payment_table P_REFUNDED
   \<and> updatePaymentStatus ''payment_1'' P_COMPLETED ex_clock ex_store =
       (Inl (InvalidStatusTransition P_REFUNDED P_COMPLETED), ex_store)
   \<and> updatePaymentStatus ''payment_1'' P_PENDING ex_clock ex_store =
       (Inl (InvalidStatusTransition P_REFUNDED P_PENDING), ex_store)"
proof -
  have h: "getPaymentById ''payment_1'' ex_store
             = Some (ex_payment ''order_1'' P_REFUNDED (Some 20))"
    by (simp add: getPaymentById_def getDoc_def ex_store_def)
  show ?thesis
    using h updatePaymentStatus_rejects_unreachable [OF h, of P_COMPLETED ex_clock]
    by (simp add: ex_payment_def)
qed



text \<open>
  C7. In a ledger whose payment ids are unique, \<^verbatim>\<open>getTotalRevenue\<close> is the sum of the
  amount over exactly the stored payments whose status is \<open>COMPLETED\<close>. It is computed
  from the store it is called on, so the same holds on the store that any call of
  \<^verbatim>\<open>updatePaymentStatus\<close> leaves; a successful transition takes the payment's amount
  out of the revenue when the payment was completed and adds it when the payment
  becomes completed.
\<close>

theorem getTotalRevenue_sums_completed:
  assumes "distinct (map fst (payments s))"
  shows "getTotalRevenue s = spec_totalRevenue s
       \<and> getTotalRevenue (snd (updatePaymentStatus pid st clk s))
           = spec_totalRevenue (snd (updatePaymentStatus pid st clk s))
       \<and> (\<forall>p. getPaymentById pid s = Some p \<and> isValidStatusTransition (p_status p) st \<longrightarrow>
            getTotalRevenue (snd (updatePaymentStatus pid st clk s)) =
              getTotalRevenue s - (if p_status p = P_COMPLETED then amount p else 0)
                + (if st = P_COMPLETED then amount p else 0))"
proof (intro conjI allI impI)
  show "getTotalRevenue s = spec_totalRevenue s"
    using assms by (rule getTotalRevenue_spec)
  have "distinct (map fst (payments (snd (updatePaymentStatus pid st clk s))))"
    using assms by (simp add: payments_keys_updatePaymentStatus)
  then show "getTotalRevenue (snd (updatePaymentStatus pid st clk s))
           = spec_totalRevenue (snd (updatePaymentStatus pid st clk s))"
    by (rule getTotalRevenue_spec)
next
  fix p
  assume "getPaymentById pid s = Some p \<and> isValidStatusTransition (p_status p) st"
  then show "getTotalRevenue (snd (updatePaymentStatus pid st clk s)) =
              getTotalRevenue s - (if p_status p = P_COMPLETED then amount p else 0)
                + (if st = P_COMPLETED then amount p else 0)"
    using revenue_after_update [OF assms, of pid p st clk] by blast
qed

theorem getTotalRevenue_sums_completed_witness:
  "distinct (map fst (payments ex_store))
   \<and> getTotalRevenue ex_store = 25
   \<and> spec_totalRevenue ex_store = 25
   \<and> getTotalRevenue (snd (updatePaymentStatus ''payment_3'' P_COMPLETED ex_clock ex_store)) = 50
   \<and> spec_totalRevenue (snd (updatePaymentStatus ''payment_3'' P_COMPLETED ex_clock ex_store))
       = 50"
proof -
  have d: "distinct (map fst (payments ex_store))" by (simp add: ex_store_def)
  have r0: "getTotalRevenue ex_store = 25"
    by (simp add: getTotalRevenue_def ex_defs)
  have r1: "getTotalRevenue (snd (updatePaymentStatus ''payment_3'' P_COMPLETED ex_clock ex_store))
              = 50"
    by (simp add: getTotalRevenue_def service_defs ex_defs)
  show ?thesis
    using d r0 r1
      getTotalRevenue_sums_completed [OF d, of "''payment_3''" P_COMPLETED ex_clock]
    by simp
qed

text \<open>
  C8. \<^verbatim>\<open>calculateOrderTotal\<close> returns the sum over the items of price times quantity,
  and the order that \<^verbatim>\<open>handleSubmit\<close> of the order creation page saves holds the
  selected items and, as its total, that sum over its items.
\<close>

theorem order_total_is_sum:
  "calculateOrderTotal its = (\<Sum>item \<leftarrow> its. price item * quantity item)
   \<and> (handleSubmit selectedProducts formData env s = (Saved oid, s') \<longrightarrow>
        (\<exists>ord. getOrderById oid s' = Some ord \<and> items ord = selectedProducts
            \<and> total ord = (\<Sum>item \<leftarrow> items ord. price item * quantity item)))"
proof (intro conjI impI)
  show "calculateOrderTotal its = (\<Sum>item \<leftarrow> its. price item * quantity item)"
    by (rule calculateOrderTotal_sum)
next
  assume "handleSubmit selectedProducts formData env s = (Saved oid, s')"
  then show "\<exists>ord. getOrderById oid s' = Some ord \<and> items ord = selectedProducts
            \<and> total ord = (\<Sum>item \<leftarrow> items ord. price item * quantity item)"
    by (auto simp: handleSubmit_def saveOrder_def Let_def getOrderById_def getDoc_setDoc
          calculateOrderTotal_sum split: if_splits)
qed

theorem order_total_is_sum_witness:
  "calculateOrderTotal [ex_item1, ex_item2] = 25
   \<and> fst (handleSubmit [ex_item1, ex_item2] ex_form ex_env ex_store) = Saved ''order_104''
   \<and> map_option items
        (getOrderById ''order_104''
          (snd (handleSubmit [ex_item1, ex_item2] ex_form ex_env ex_store)))
      = Some [ex_item1, ex_item2]
   \<and> map_option total
        (getOrderById ''order_104''
          (snd (handleSubmit [ex_item1, ex_item2] ex_form ex_env ex_store)))
      = Some 25"
proof -
  let ?r = "handleSubmit [ex_item1, ex_item2] ex_form ex_env ex_store"
  have f: "fst ?r = Saved ''order_104''"
    by (simp add: handleSubmit_def saveOrder_def Let_def ex_form_def ex_env_def decimal.simps)
  have h: "?r = (Saved ''order_104'', snd ?r)"
    using f by (metis prod.collapse)
  have t: "(\<Sum>item \<leftarrow> [ex_item1, ex_item2]. price item * quantity item) = 25"
    by (simp add: ex_item1_def ex_item2_def)
  note inst = order_total_is_sum [of "[ex_item1, ex_item2]" "[ex_item1, ex_item2]" ex_form ex_env
        ex_store "''order_104''" "snd ?r"]
  from inst h obtain ord where ord: "getOrderById ''order_104'' (snd ?r) = Some ord"
    "items ord = [ex_item1, ex_item2]"
    "total ord = (\<Sum>item \<leftarrow> items ord. price item * quantity item)"
    by blast
  from inst t have c: "calculateOrderTotal [ex_item1, ex_item2] = 25" by simp
  from ord t have "map_option items (getOrderById ''order_104'' (snd ?r))
        = Some [ex_item1, ex_item2]"
    and "map_option total (getOrderById ''order_104'' (snd ?r)) = Some 25"
    by simp_all
  with c f show ?thesis by blast
qed

text \<open>
  C9, as stated: the table of the payment service and \<^verbatim>\<open>getValidStatusTransitions\<close>
  of the payment detail page differ only on \<open>FAILED \<rightarrow> PROCESSING\<close>. They differ on
  \<open>FAILED \<rightarrow> CANCELLED\<close> as well: the service allows it, the page does not offer it.
\<close>

theorem tables_differ_on_failed_cancelled:
  "isValidStatusTransition P_FAILED P_CANCELLED
   \<and> P_CANCELLED \<notin> set (getValidStatusTransitions P_FAILED)"
  by (simp add: isValidStatusTransition_def)

text \<open>
  C9, amended: the two tables allow the same transitions except for exactly two, both
  from \<open>FAILED\<close>: \<open>FAILED \<rightarrow> PROCESSING\<close>, which only the page allows, and
  \<open>FAILED \<rightarrow> CANCELLED\<close>, which only the service allows.
\<close>

theorem tables_agree_except_from_failed:
  "((isValidStatusTransition cur new \<longleftrightarrow> new \<in> set (getValidStatusTransitions cur))
      \<longleftrightarrow> \<not> (cur = P_FAILED \<and> (new = P_PROCESSING \<or> new = P_CANCELLED)))
   \<and> \<not> isValidStatusTransition P_FAILED P_PROCESSING
   \<and> P_PROCESSING \<in> set (getValidStatusTransitions P_FAILED)
   \<and> isValidStatusTransition P_FAILED P_CANCELLED
   \<and> P_CANCELLED \<notin> set (getValidStatusTransitions P_FAILED)"
  by (cases cur; cases new) (simp_all add: isValidStatusTransition_def)

theorem tables_agree_except_from_failed_witness:
  "(isValidStatusTransition P_PENDING P_COMPLETED
      \<longleftrightarrow> P_COMPLETED \<in> set (getValidStatusTransitions P_PENDING))
   \<and> \<not> (isValidStatusTransition P_FAILED P_PROCESSING
      \<longleftrightarrow> P_PROCESSING \<in> set (getValidStatusTransitions P_FAILED))"
  using tables_agree_except_from_failed [of P_PENDING P_COMPLETED]
    tables_agree_except_from_failed [of P_FAILED P_PROCESSING]
  by simp

text \<open>
  C10. Under the table of the payment service, a sequence of valid transitions that
  starts from \<open>PENDING\<close> holds the status \<open>COMPLETED\<close> at most once: the only step out of
  \<open>COMPLETED\<close> goes to \<open>REFUNDED\<close>, and no step leaves \<open>REFUNDED\<close>. And once a call of
  \<^verbatim>\<open>updatePaymentStatus\<close> has moved a payment into \<open>COMPLETED\<close>, the \<^verbatim>\<open>completedAt\<close> it
  wrote is still there after any further sequence of calls, on this or on other
  payments.
\<close>

theorem completedAt_never_overwritten:
  "(valid_path (P_PENDING # xs) \<longrightarrow> count_list (P_PENDING # xs) P_COMPLETED \<le> 1)
   \<and> (isValidStatusTransition P_COMPLETED st \<longleftrightarrow> st = P_REFUNDED)
   \<and> \<not> isValidStatusTransition P_REFUNDED st
   \<and> (fst (updatePaymentStatus pid P_COMPLETED clk s) = Inr () \<longrightarrow>
        map_option completedAt
          (getPaymentById pid (run_updates cs (snd (updatePaymentStatus pid P_COMPLETED clk s))))
        = Some (Some (now_completedAt clk)))"
proof (intro conjI impI)
  assume "valid_path (P_PENDING # xs)"
  then show "count_list (P_PENDING # xs) P_COMPLETED \<le> 1" by (rule completed_once)
next
  show "isValidStatusTransition P_COMPLETED st \<longleftrightarrow> st = P_REFUNDED"
    by (auto simp: isValidStatusTransition_def)
next
  show "\<not> isValidStatusTransition P_REFUNDED st"
    by (simp add: isValidStatusTransition_def)
next
  assume ok: "fst (updatePaymentStatus pid P_COMPLETED clk s) = Inr ()"
  let ?s1 = "snd (updatePaymentStatus pid P_COMPLETED clk s)"
  from ok obtain p where p: "getPaymentById pid s = Some p"
    "isValidStatusTransition (p_status p) P_COMPLETED"
    by (rule updatePaymentStatus_ok_cases)
  have ne: "pid \<noteq> []" using p(1) by (rule getPaymentById_nonempty)
  have "getPaymentById pid ?s1 = Some (paymentUpdateData P_COMPLETED clk p)"
    using updatePaymentStatus_payments(1) [OF p, of clk] p(1) ne
    by (simp add: getPaymentById_def getDoc_updateDoc)
  from run_updates_completedAt [OF this, of cs]
  show "map_option completedAt (getPaymentById pid (run_updates cs ?s1))
          = Some (Some (now_completedAt clk))"
    by (auto simp: paymentUpdateData_def)
qed

theorem completedAt_never_overwritten_witness:
  "valid_path [P_PENDING, P_PROCESSING, P_COMPLETED, P_REFUNDED]
   \<and> count_list [P_PENDING, P_PROCESSING, P_COMPLETED, P_REFUNDED] P_COMPLETED \<le> 1
   \<and> fst (updatePaymentStatus ''payment_3'' P_COMPLETED ex_clock ex_store) = Inr ()
   \<and> map_option completedAt
        (getPaymentById ''payment_3''
          (run_updates
            [(''payment_3'', P_REFUNDED, \<lparr>now_updatedAt = 50, now_completedAt = 51, now_order = 52\<rparr>),
             (''payment_3'', P_COMPLETED, \<lparr>now_updatedAt = 60, now_completedAt = 61, now_order = 62\<rparr>),
             (''payment_2'', P_COMPLETED, \<lparr>now_updatedAt = 70, now_completedAt = 71, now_order = 72\<rparr>)]
            (snd (updatePaymentStatus ''payment_3'' P_COMPLETED ex_clock ex_store))))
      = Some (Some 41)"
proof -
  have ok: "fst (updatePaymentStatus ''payment_3'' P_COMPLETED ex_clock ex_store) = Inr ()"
    by (simp add: service_defs ex_defs)
  have path: "valid_path [P_PENDING, P_PROCESSING, P_COMPLETED, P_REFUNDED]"
    by (simp add: isValidStatusTransition_def)
  show ?thesis
    using ok path
      completedAt_never_overwritten [of "[P_PROCESSING, P_COMPLETED, P_REFUNDED]" P_REFUNDED
        "''payment_3''" ex_clock ex_store
        "[(''payment_3'', P_REFUNDED, \<lparr>now_updatedAt = 50, now_completedAt = 51, now_order = 52\<rparr>),
          (''payment_3'', P_COMPLETED, \<lparr>now_updatedAt = 60, now_completedAt = 61, now_order = 62\<rparr>),
          (''payment_2'', P_COMPLETED, \<lparr>now_updatedAt = 70, now_completedAt = 71, now_order = 72\<rparr>)]"]
    by (simp add: ex_clock_def)
qed

end
